theory Spec2Isabelle
  imports Complex_Main "HOL-Library.AList" "HOL-Library.Sublist"
begin

section \<open>Design Studio API: documents, store and handlers\<close>

text \<open>
  The handlers of \<^verbatim>\<open>main.py\<close> translate one HTTP request into one or two calls on a
  MongoDB database and serialise what comes back. The embedding keeps that shape:
  a document is a Python dict, a collection is the list of its documents in store
  order, the database is a record of collections that every mutating handler returns
  updated, and every \<^verbatim>\<open>raise\<close> is an \<open>Inl\<close> result.
\<close>

subsection \<open>Values and documents\<close>

text \<open>
  A Python \<^verbatim>\<open>datetime\<close> is its calendar fields; \<^verbatim>\<open>isoformat()\<close> prints them
  zero-padded, with the microseconds only when they are not zero (the form of a
  datetime read back from the store).
\<close>

record datetime =
  year :: nat
  month :: nat
  day :: nat
  hour :: nat
  minute :: nat
  second :: nat
  microsecond :: nat

definition digit_char :: "nat \<Rightarrow> char" where
  "digit_char n = ''0123456789'' ! n"

fun dec :: "nat \<Rightarrow> string" where
  "dec n = (if n < 10 then [digit_char n] else dec (n div 10) @ [digit_char (n mod 10)])"

definition zpad :: "nat \<Rightarrow> nat \<Rightarrow> string" where
  "zpad w n = replicate (w - length (dec n)) (CHR ''0'') @ dec n"

definition isoformat :: "datetime \<Rightarrow> string" where
  "isoformat t =
     zpad 4 (year t) @ ''-'' @ zpad 2 (month t) @ ''-'' @ zpad 2 (day t) @ ''T'' @
     zpad 2 (hour t) @ '':'' @ zpad 2 (minute t) @ '':'' @ zpad 2 (second t) @
     (if microsecond t = 0 then [] else ''.'' @ zpad 6 (microsecond t))"

text \<open>
  The values a document field holds: \<^verbatim>\<open>None\<close>, \<^verbatim>\<open>bool\<close>, \<^verbatim>\<open>int\<close>, \<^verbatim>\<open>float\<close>
  (its numeric value), \<^verbatim>\<open>str\<close>, \<^verbatim>\<open>datetime\<close>, \<^verbatim>\<open>list\<close> and nested \<^verbatim>\<open>dict\<close>.
  A dict keeps insertion order, so it is an association list: assignment to a key
  is \<open>AList.update\<close> (in place when the key is there, appended otherwise).
\<close>

datatype val =
    VNone
  | VBool bool
  | VInt int
  | VFloat real
  | VStr string
  | VDate datetime
  | VList "val list"
  | VDict "(string \<times> val) list"

text \<open>
  An \<^verbatim>\<open>ObjectId\<close> is twelve bytes, written as 24 hexadecimal digits;
  \<^verbatim>\<open>str(oid)\<close> prints them in lower case. The value is kept in that printed form.
  Only the strings of 24 hexadecimal digits are taken as well-formed below; the
  24-character strings with ASCII whitespace that \<^verbatim>\<open>bytes.fromhex\<close> also reads, and
  that give fewer than twelve bytes, are counted as malformed.
\<close>

type_synonym objectid = string

text \<open>
  A document is a \<^verbatim>\<open>Dict[str, Any]\<close>. Its \<^verbatim>\<open>_id\<close> entry is kept apart from the
  other entries: the store assigns it and no handler writes it, so it is an
  \<^verbatim>\<open>ObjectId\<close> when the key is present, and \<open>None\<close> stands for a dict without
  the key. \<open>entries\<close> are the remaining entries in dict order.
\<close>

record document =
  oid :: "objectid option"
  entries :: "(string \<times> val) list"

definition field :: "document \<Rightarrow> string \<Rightarrow> val option" where
  "field d k = map_of (entries d) k"

text \<open>What the handlers raise; an exception that no handler catches ends the request.\<close>

datatype exn =
    HTTPException nat string
  | InvalidId
  | WriteError

subsection \<open>\<^verbatim>\<open>ObjectId(s)\<close>\<close>

definition is_hex :: "char \<Rightarrow> bool" where
  "is_hex c = (c \<in> set ''0123456789abcdefABCDEF'')"

definition lower_ascii :: "char \<Rightarrow> char" where
  "lower_ascii c =
     (case map_of (zip ''ABCDEFGHIJKLMNOPQRSTUVWXYZ'' ''abcdefghijklmnopqrstuvwxyz'') c of
        Some l \<Rightarrow> l
      | None \<Rightarrow> c)"

definition is_valid :: "string \<Rightarrow> bool" where
  "is_valid s = (length s = 24 \<and> list_all is_hex s)"

definition ObjectId :: "string \<Rightarrow> exn + objectid" where
  "ObjectId s = (if is_valid s then Inr (map lower_ascii s) else Inl InvalidId)"

subsection \<open>\<^verbatim>\<open>serialize_doc\<close>\<close>

text \<open>
  \<^verbatim>\<open>
  def serialize_doc(doc):
      if not doc:
          return doc
      doc["id"] = str(doc.get("_id"))
      doc.pop("_id", None)
      for k, v in list(doc.items()):
          if isinstance(v, datetime):
              doc[k] = v.isoformat()
      return doc
  \<close>
  \<^verbatim>\<open>doc.get("_id")\<close> is \<^verbatim>\<open>None\<close> when the key is absent, and \<^verbatim>\<open>str(None)\<close> is
  the string \<^verbatim>\<open>None\<close>. Only the top-level values are converted.
\<close>

definition str_id :: "objectid option \<Rightarrow> string" where
  "str_id i = (case i of None \<Rightarrow> ''None'' | Some h \<Rightarrow> h)"

definition iso_value :: "val \<Rightarrow> val" where
  "iso_value v = (case v of VDate t \<Rightarrow> VStr (isoformat t) | _ \<Rightarrow> v)"

definition convert_datetime :: "string \<times> val \<Rightarrow> string \<times> val" where
  "convert_datetime kv = (fst kv, iso_value (snd kv))"

definition serialize_doc :: "document \<Rightarrow> document" where
  "serialize_doc doc =
     (if oid doc = None \<and> entries doc = [] then doc
      else \<lparr>oid = None,
            entries = map convert_datetime (AList.update ''id'' (VStr (str_id (oid doc))) (entries doc))\<rparr>)"

text \<open>\<^verbatim>\<open>serialize_doc(None)\<close> returns \<^verbatim>\<open>None\<close>: \<^verbatim>\<open>None\<close> is falsy.\<close>

definition serialize_opt :: "document option \<Rightarrow> document option" where
  "serialize_opt r = map_option serialize_doc r"

subsection \<open>The store\<close>

text \<open>
  \<^verbatim>\<open>db[name]\<close> for the four collections the handlers use, each in store order. The
  store keeps a value as it was written; that it keeps a datetime to the millisecond
  only is not modelled.
\<close>

record db =
  product :: "document list"
  order :: "document list"
  project :: "document list"
  customrequest :: "document list"

text \<open>\<^verbatim>\<open>find_one({"_id": i})\<close>: the first document with that identifier.\<close>

definition find_one :: "document list \<Rightarrow> objectid \<Rightarrow> document option" where
  "find_one coll i = List.find (\<lambda>d. oid d = Some i) coll"

subsection \<open>\<^verbatim>\<open>get_product\<close>\<close>

text \<open>
  \<^verbatim>\<open>
  def get_product(product_id: str):
      try:
          doc = db["product"].find_one({"_id": ObjectId(product_id)})
          if not doc:
              raise HTTPException(status_code=404, detail="Product not found")
          return serialize_doc(doc)
      except Exception:
          raise HTTPException(status_code=400, detail="Invalid product id")
  \<close>
  The body of the \<^verbatim>\<open>try\<close> and the handler are kept apart. \<^verbatim>\<open>HTTPException\<close> is a
  subclass of \<^verbatim>\<open>Exception\<close>, so \<^verbatim>\<open>except Exception\<close> catches whatever the body
  raises, its own 404 included.
\<close>

definition get_product_try :: "db \<Rightarrow> string \<Rightarrow> exn + document" where
  "get_product_try s product_id =
     (case ObjectId product_id of
        Inl e \<Rightarrow> Inl e
      | Inr i \<Rightarrow>
          (case find_one (product s) i of
             None \<Rightarrow> Inl (HTTPException 404 ''Product not found'')
           | Some doc \<Rightarrow>
               if oid doc = None \<and> entries doc = [] then Inl (HTTPException 404 ''Product not found'')
               else Inr (serialize_doc doc)))"

definition get_product :: "db \<Rightarrow> string \<Rightarrow> exn + document" where
  "get_product s product_id =
     (case get_product_try s product_id of
        Inl e \<Rightarrow> Inl (HTTPException 400 ''Invalid product id'')
      | Inr r \<Rightarrow> Inr r)"

subsection \<open>Queries\<close>

text \<open>
  The handlers build three kinds of condition on a field: equality with a string,
  equality with a boolean, and \<^verbatim>\<open>{"$regex": q, "$options": "i"}\<close>. A condition
  holds of a field when it holds of the field's value or, the value being an array,
  of one of its elements; a missing field satisfies none of them.

  The store's pattern language is PCRE. The fragment covered here is a sequence of
  ordinary characters, of \<^verbatim>\<open>.\<close>, which stands for any character but a newline, and
  of the anchors \<^verbatim>\<open>^\<close> (the start of the string) and \<^verbatim>\<open>$\<close> (its end, or just
  before a newline that ends it); \<open>compile\<close> gives \<open>None\<close> for a pattern with any
  other metacharacter, and the listing that uses it then makes no statement. With the
  option \<^verbatim>\<open>i\<close> the ASCII letters match in either case. A pattern is searched for at
  every position of the string; \<open>at_start\<close> tells whether the position is the first.
\<close>

datatype rx = Lit char | AnyChar | Bol | Eol

definition metachars :: "char list" where
  "metachars = [CHR 0x5C, CHR ''^'', CHR ''$'', CHR ''.'', CHR ''['', CHR ''|'', CHR ''('',
                CHR '')'', CHR ''?'', CHR ''*'', CHR ''+'', CHR ''{'']"

fun compile :: "string \<Rightarrow> rx list option" where
  "compile [] = Some []"
| "compile (c # cs) =
     (if c = CHR ''.'' then map_option (\<lambda>r. AnyChar # r) (compile cs)
      else if c = CHR ''^'' then map_option (\<lambda>r. Bol # r) (compile cs)
      else if c = CHR ''$'' then map_option (\<lambda>r. Eol # r) (compile cs)
      else if c \<in> set metachars then None
      else map_option (\<lambda>r. Lit c # r) (compile cs))"

fun rx_char :: "bool \<Rightarrow> rx \<Rightarrow> char \<Rightarrow> bool" where
  "rx_char caseless (Lit a) c = (if caseless then lower_ascii a = lower_ascii c else a = c)"
| "rx_char caseless AnyChar c = (c \<noteq> CHR 0x0A)"
| "rx_char caseless Bol c = False"
| "rx_char caseless Eol c = False"

fun match_here :: "bool \<Rightarrow> bool \<Rightarrow> rx list \<Rightarrow> string \<Rightarrow> bool" where
  "match_here caseless at_start [] cs = True"
| "match_here caseless at_start (Bol # rs) cs = (at_start \<and> match_here caseless at_start rs cs)"
| "match_here caseless at_start (Eol # rs) cs =
     ((cs = [] \<or> cs = [CHR 0x0A]) \<and> match_here caseless at_start rs cs)"
| "match_here caseless at_start (r # rs) [] = False"
| "match_here caseless at_start (r # rs) (c # cs) =
     (rx_char caseless r c \<and> match_here caseless False rs cs)"

fun search_from :: "bool \<Rightarrow> bool \<Rightarrow> rx list \<Rightarrow> string \<Rightarrow> bool" where
  "search_from caseless at_start rs [] = match_here caseless at_start rs []"
| "search_from caseless at_start rs (c # cs) =
     (match_here caseless at_start rs (c # cs) \<or> search_from caseless False rs cs)"

definition regex_search :: "bool \<Rightarrow> rx list \<Rightarrow> string \<Rightarrow> bool" where
  "regex_search caseless rs cs = search_from caseless True rs cs"

datatype cond = EqStr string | EqBool bool | Regex "rx list" string

fun holds :: "cond \<Rightarrow> val \<Rightarrow> bool" where
  "holds (EqStr a) v = (v = VStr a)"
| "holds (EqBool b) v = (v = VBool b)"
| "holds (Regex r opts) v =
     (case v of VStr t \<Rightarrow> regex_search (CHR ''i'' \<in> set opts) r t | _ \<Rightarrow> False)"

definition cond_match :: "cond \<Rightarrow> val option \<Rightarrow> bool" where
  "cond_match c fv =
     (case fv of
        None \<Rightarrow> False
      | Some (VList xs) \<Rightarrow> list_ex (holds c) xs
      | Some v \<Rightarrow> holds c v)"

definition matches :: "(string \<times> cond) list \<Rightarrow> document \<Rightarrow> bool" where
  "matches flt d = list_all (\<lambda>kc. cond_match (snd kc) (field d (fst kc))) flt"

text \<open>\<^verbatim>\<open>collection.find(filter)\<close>: the matching documents in store order.\<close>

definition find_docs :: "document list \<Rightarrow> (string \<times> cond) list \<Rightarrow> document list" where
  "find_docs coll flt = filter (matches flt) coll"

text \<open>
  \<^verbatim>\<open>cursor.limit(n)\<close>: \<open>0\<close> is no limit, and a negative \<open>n\<close> asks for \<open>- n\<close>
  documents (in a single batch, whose size is not modelled).
\<close>

definition cursor_limit :: "int \<Rightarrow> 'a list \<Rightarrow> 'a list" where
  "cursor_limit n xs = (if n = 0 then xs else take (nat \<bar>n\<bar>) xs)"

text \<open>
  Modelled from the spec: \<^verbatim>\<open>get_documents\<close> of the module \<^verbatim>\<open>database\<close>, which is
  not among the sources. The specification gives it as
  \<^verbatim>\<open>findDocuments(collection, filter, limit) -> sequence of documents\<close>, a single
  query: the documents that match the filter, in store order, up to the limit.
\<close>

definition get_documents :: "document list \<Rightarrow> (string \<times> cond) list \<Rightarrow> int \<Rightarrow> document list" where
  "get_documents coll flt limit = cursor_limit limit (find_docs coll flt)"

subsection \<open>\<^verbatim>\<open>list_products\<close>, \<^verbatim>\<open>featured_products\<close>, \<^verbatim>\<open>list_projects\<close>\<close>

text \<open>
  \<^verbatim>\<open>
  def list_products(category=None, style=None, color=None, q=None, limit: int = 24):
      filter_q = {}
      if category:
          filter_q["category"] = category
      if style:
          filter_q["style"] = style
      if color:
          filter_q["color"] = color
      if q:
          filter_q["title"] = {"$regex": q, "$options": "i"}
      docs = get_documents("product", filter_q, limit)
      return [serialize_doc(d) for d in docs]
  \<close>
  An optional query parameter is an \<open>option\<close>; \<^verbatim>\<open>if category:\<close> is false for
  \<^verbatim>\<open>None\<close> and for the empty string. \<open>set_if\<close> is one such guarded assignment,
  \<open>products_filter\<close> the first three of them, and \<open>filter_q\<close> the whole dict, which
  is \<open>None\<close> when \<open>q\<close> is a pattern outside the fragment.
\<close>

definition set_if ::
  "string option \<Rightarrow> string \<Rightarrow> (string \<Rightarrow> cond) \<Rightarrow> (string \<times> cond) list \<Rightarrow> (string \<times> cond) list" where
  "set_if p k mk flt =
     (case p of None \<Rightarrow> flt | Some v \<Rightarrow> if v = [] then flt else AList.update k (mk v) flt)"

definition default_to :: "int \<Rightarrow> int option \<Rightarrow> int" where
  "default_to n limit = (case limit of None \<Rightarrow> n | Some l \<Rightarrow> l)"

definition products_filter ::
  "string option \<Rightarrow> string option \<Rightarrow> string option \<Rightarrow> (string \<times> cond) list" where
  "products_filter category style color =
     set_if color ''color'' EqStr (set_if style ''style'' EqStr (set_if category ''category'' EqStr []))"

definition filter_q ::
  "string option \<Rightarrow> string option \<Rightarrow> string option \<Rightarrow> string option
     \<Rightarrow> (string \<times> cond) list option" where
  "filter_q category style color q =
     (case q of
        None \<Rightarrow> Some (products_filter category style color)
      | Some p \<Rightarrow>
          if p = [] then Some (products_filter category style color)
          else map_option (\<lambda>r. AList.update ''title'' (Regex r ''i'') (products_filter category style color))
                 (compile p))"

definition list_products ::
  "db \<Rightarrow> string option \<Rightarrow> string option \<Rightarrow> string option \<Rightarrow> string option \<Rightarrow> int option
     \<Rightarrow> document list option" where
  "list_products s category style color q limit =
     map_option (\<lambda>f. map serialize_doc (get_documents (product s) f (default_to 24 limit)))
       (filter_q category style color q)"

text \<open>
  \<^verbatim>\<open>
  def featured_products(limit: int = 8):
      docs = db["product"].find({"featured": True}).limit(limit)
      return [serialize_doc(d) for d in docs]
  \<close>
\<close>

definition featured_products :: "db \<Rightarrow> int option \<Rightarrow> document list" where
  "featured_products s limit =
     map serialize_doc
       (cursor_limit (default_to 8 limit) (find_docs (product s) [(''featured'', EqBool True)]))"



subsection \<open>Inserting\<close>

text \<open>
  \<^verbatim>\<open>insert_one\<close> stores the dict under the identifier the driver generates for it, here
  the argument \<open>new_id\<close>, after the documents already there.
\<close>

definition insert_one :: "document list \<Rightarrow> objectid \<Rightarrow> (string \<times> val) list \<Rightarrow> document list" where
  "insert_one coll new_id data = coll @ [\<lparr>oid = Some new_id, entries = data\<rparr>]"

text \<open>
  Modelled from the spec: \<^verbatim>\<open>create_document\<close> of the module \<^verbatim>\<open>database\<close>, which is
  not among the sources. The specification gives it as
  \<^verbatim>\<open>createDocument(collection, data) -> id\<close>, a single insert that assigns the
  document its generated identifier; the handlers pass the result to
  \<^verbatim>\<open>ObjectId\<close>, so it is the identifier's string form.
\<close>

definition create_document ::
  "document list \<Rightarrow> objectid \<Rightarrow> (string \<times> val) list \<Rightarrow> document list \<times> string" where
  "create_document coll new_id data = (insert_one coll new_id data, new_id)"

subsection \<open>\<^verbatim>\<open>checkout\<close>\<close>

record OrderItem =
  product_id :: string
  title :: string
  price :: real
  license :: string
  quantity :: int

record CheckoutRequest =
  email :: string
  items :: "OrderItem list"
  subtotal :: real
  coupon_code :: "string option"
  order_notes :: "string option"

definition opt_str :: "string option \<Rightarrow> val" where
  "opt_str x = (case x of None \<Rightarrow> VNone | Some v \<Rightarrow> VStr v)"

definition opt_float :: "real option \<Rightarrow> val" where
  "opt_float x = (case x of None \<Rightarrow> VNone | Some v \<Rightarrow> VFloat v)"

definition item_dict :: "OrderItem \<Rightarrow> val" where
  "item_dict i =
     VDict [(''product_id'', VStr (product_id i)), (''title'', VStr (title i)),
            (''price'', VFloat (price i)), (''license'', VStr (license i)),
            (''quantity'', VInt (quantity i))]"

text \<open>
  The field \<^verbatim>\<open>notes\<close> of the request is \<open>order_notes\<close> here.
  \<^verbatim>\<open>
  def checkout(payload: CheckoutRequest):
      order_doc = {
          "email": payload.email,
          "items": [i.dict() for i in payload.items],
          "subtotal": payload.subtotal,
          "coupon_code": payload.coupon_code,
          "notes": payload.notes,
          "status": "paid",
          "download_links": [f"/downloads/{i.product_id}.zip" for i in payload.items],
          "invoice_url": "/invoices/mock.pdf",
      }
      order_id = create_document("order", order_doc)
      saved = db["order"].find_one({"_id": ObjectId(order_id)})
      return serialize_doc(saved)
  \<close>
\<close>

definition download_link :: "OrderItem \<Rightarrow> string" where
  "download_link i = ''/downloads/'' @ product_id i @ ''.zip''"

definition order_doc :: "CheckoutRequest \<Rightarrow> (string \<times> val) list" where
  "order_doc payload =
     [(''email'', VStr (email payload)),
      (''items'', VList (map item_dict (items payload))),
      (''subtotal'', VFloat (subtotal payload)),
      (''coupon_code'', opt_str (coupon_code payload)),
      (''notes'', opt_str (order_notes payload)),
      (''status'', VStr ''paid''),
      (''download_links'', VList (map (\<lambda>i. VStr (download_link i)) (items payload))),
      (''invoice_url'', VStr ''/invoices/mock.pdf'')]"

definition checkout :: "db \<Rightarrow> objectid \<Rightarrow> CheckoutRequest \<Rightarrow> (exn + document option) \<times> db" where
  "checkout s new_id payload =
     (case create_document (order s) new_id (order_doc payload) of
        (coll, order_id) \<Rightarrow>
          (let s' = s\<lparr>order := coll\<rparr> in
           case ObjectId order_id of
             Inl e \<Rightarrow> (Inl e, s')
           | Inr i \<Rightarrow> (Inr (serialize_opt (find_one coll i)), s')))"

subsection \<open>Updates\<close>

text \<open>
  \<^verbatim>\<open>update_one({"_id": i}, {"$push": {...}, "$set": {...}})\<close> changes the first
  document with that identifier and reports how many it matched. \<^verbatim>\<open>$set\<close> assigns
  a field. \<^verbatim>\<open>$push\<close> appends to the array a field holds, creates the array when
  the field is missing, and fails the whole update with a write error when the field
  holds anything else.
\<close>

record update =
  u_push :: "(string \<times> val) list"
  u_set :: "(string \<times> val) list"

fun apply_push :: "(string \<times> val) list \<Rightarrow> (string \<times> val) list \<Rightarrow> exn + (string \<times> val) list" where
  "apply_push [] es = Inr es"
| "apply_push ((k, v) # ps) es =
     (case map_of es k of
        None \<Rightarrow> apply_push ps (AList.update k (VList [v]) es)
      | Some (VList xs) \<Rightarrow> apply_push ps (AList.update k (VList (xs @ [v])) es)
      | Some _ \<Rightarrow> Inl WriteError)"

fun apply_set :: "(string \<times> val) list \<Rightarrow> (string \<times> val) list \<Rightarrow> (string \<times> val) list" where
  "apply_set [] es = es"
| "apply_set ((k, v) # ps) es = apply_set ps (AList.update k v es)"

definition apply_update :: "update \<Rightarrow> (string \<times> val) list \<Rightarrow> exn + (string \<times> val) list" where
  "apply_update u es =
     (case apply_push (u_push u) es of Inl e \<Rightarrow> Inl e | Inr es' \<Rightarrow> Inr (apply_set (u_set u) es'))"

fun update_one :: "document list \<Rightarrow> objectid \<Rightarrow> update \<Rightarrow> exn + document list \<times> nat" where
  "update_one [] i u = Inr ([], 0)"
| "update_one (d # ds) i u =
     (if oid d = Some i then
        (case apply_update u (entries d) of
           Inl e \<Rightarrow> Inl e
         | Inr es \<Rightarrow> Inr (d\<lparr>entries := es\<rparr> # ds, 1))
      else
        (case update_one ds i u of
           Inl e \<Rightarrow> Inl e
         | Inr (ds', n) \<Rightarrow> Inr (d # ds', n)))"

subsection \<open>The project workflow\<close>

text \<open>
  The three handlers have one shape: build the identifier, update, answer 404 when
  nothing matched, otherwise read the document back and serialise it:
  \<^verbatim>\<open>
      res = db["project"].update_one({"_id": ObjectId(project_id)}, update)
      if res.matched_count == 0:
          raise HTTPException(status_code=404, detail="Project not found")
      doc = db["project"].find_one({"_id": ObjectId(project_id)})
      return serialize_doc(doc)
  \<close>
  \<^verbatim>\<open>ObjectId(project_id)\<close> is evaluated before the update is sent, and none of the
  three catches what it raises. Each handler returns its answer and the database.
\<close>

definition update_project :: "db \<Rightarrow> string \<Rightarrow> update \<Rightarrow> (exn + document option) \<times> db" where
  "update_project s project_id u =
     (case ObjectId project_id of
        Inl e \<Rightarrow> (Inl e, s)
      | Inr i \<Rightarrow>
          (case update_one (project s) i u of
             Inl e \<Rightarrow> (Inl e, s)
           | Inr (coll, matched_count) \<Rightarrow>
               (let s' = s\<lparr>project := coll\<rparr> in
                if matched_count = 0 then (Inl (HTTPException 404 ''Project not found''), s')
                else (Inr (serialize_opt (find_one coll i)), s'))))"

text \<open>
  \<^verbatim>\<open>
  def upload_draft(project_id: str, url: str):
      now = datetime.now(timezone.utc)
      res = db["project"].update_one({"_id": ObjectId(project_id)},
              {"$push": {"drafts": {"url": url, "uploaded_at": now}},
               "$set": {"updated_at": now}})
  \<close>
  The clock is an argument: \<open>now\<close> is what \<^verbatim>\<open>datetime.now\<close> returned.
\<close>

definition draft_entry :: "string \<Rightarrow> datetime \<Rightarrow> val" where
  "draft_entry url now = VDict [(''url'', VStr url), (''uploaded_at'', VDate now)]"

definition upload_draft :: "db \<Rightarrow> datetime \<Rightarrow> string \<Rightarrow> string \<Rightarrow> (exn + document option) \<times> db" where
  "upload_draft s now project_id url =
     update_project s project_id
       \<lparr>u_push = [(''drafts'', draft_entry url now)], u_set = [(''updated_at'', VDate now)]\<rparr>"

text \<open>
  \<^verbatim>\<open>
  def add_comment(project_id: str, payload: ProofCommentIn):
      comment = payload.dict()
      comment.update({"created_at": datetime.now(timezone.utc), "status": "open"})
      res = db["project"].update_one({"_id": ObjectId(project_id)},
              {"$push": {"comments": comment},
               "$set": {"updated_at": datetime.now(timezone.utc)}})
  \<close>
  The clock is read twice: \<open>now1\<close> for \<^verbatim>\<open>created_at\<close>, \<open>now2\<close> for
  \<^verbatim>\<open>updated_at\<close>. The fields \<^verbatim>\<open>x\<close> and \<^verbatim>\<open>y\<close> of the request are \<open>pos_x\<close> and
  \<open>pos_y\<close> here.
\<close>

record ProofCommentIn =
  author :: string
  message :: string
  pos_x :: "real option"
  pos_y :: "real option"

definition comment_entry :: "ProofCommentIn \<Rightarrow> datetime \<Rightarrow> val" where
  "comment_entry payload now1 =
     VDict (AList.update ''status'' (VStr ''open'')
             (AList.update ''created_at'' (VDate now1)
               [(''author'', VStr (author payload)), (''message'', VStr (message payload)),
                (''x'', opt_float (pos_x payload)), (''y'', opt_float (pos_y payload))]))"

definition add_comment ::
  "db \<Rightarrow> datetime \<Rightarrow> datetime \<Rightarrow> string \<Rightarrow> ProofCommentIn \<Rightarrow> (exn + document option) \<times> db" where
  "add_comment s now1 now2 project_id payload =
     update_project s project_id
       \<lparr>u_push = [(''comments'', comment_entry payload now1)], u_set = [(''updated_at'', VDate now2)]\<rparr>"

text \<open>
  \<^verbatim>\<open>
  def approve_project(project_id: str):
      res = db["project"].update_one({"_id": ObjectId(project_id)},
              {"$set": {"status": "approved", "approved_at": datetime.now(timezone.utc)}})
  \<close>
\<close>

definition approve_project :: "db \<Rightarrow> datetime \<Rightarrow> string \<Rightarrow> (exn + document option) \<times> db" where
  "approve_project s now project_id =
     update_project s project_id
       \<lparr>u_push = [], u_set = [(''status'', VStr ''approved''), (''approved_at'', VDate now)]\<rparr>"

text \<open>
  \<^verbatim>\<open>
  def create_project(payload: ProjectCreateIn):
      project = payload.dict()
      project.update({"status": "in_progress", "drafts": [], "comments": [], "history": []})
      pid = create_document("project", project)
      saved = db["project"].find_one({"_id": ObjectId(pid)})
      return serialize_doc(saved)
  \<close>
\<close>

record ProjectCreateIn =
  p_title :: string
  client_email :: string
  request_id :: "string option"

definition project_doc :: "ProjectCreateIn \<Rightarrow> (string \<times> val) list" where
  "project_doc payload =
     [(''title'', VStr (p_title payload)), (''client_email'', VStr (client_email payload)),
      (''request_id'', opt_str (request_id payload)),
      (''status'', VStr ''in_progress''), (''drafts'', VList []), (''comments'', VList []),
      (''history'', VList [])]"

definition create_project :: "db \<Rightarrow> objectid \<Rightarrow> ProjectCreateIn \<Rightarrow> (exn + document option) \<times> db" where
  "create_project s new_id payload =
     (case create_document (project s) new_id (project_doc payload) of
        (coll, pid) \<Rightarrow>
          (let s' = s\<lparr>project := coll\<rparr> in
           case ObjectId pid of
             Inl e \<Rightarrow> (Inl e, s')
           | Inr i \<Rightarrow> (Inr (serialize_opt (find_one coll i)), s')))"

text \<open>A project as the store holds it, and the operations of the workflow on it.\<close>

definition project_field :: "db \<Rightarrow> objectid \<Rightarrow> string \<Rightarrow> val option" where
  "project_field s i k = (case find_one (project s) i of None \<Rightarrow> None | Some d \<Rightarrow> field d k)"

datatype op =
    UploadDraft datetime string string
  | AddComment datetime datetime string ProofCommentIn
  | Approve datetime string

fun run_op :: "db \<Rightarrow> op \<Rightarrow> (exn + document option) \<times> db" where
  "run_op s (UploadDraft now project_id url) = upload_draft s now project_id url"
| "run_op s (AddComment now1 now2 project_id payload) = add_comment s now1 now2 project_id payload"
| "run_op s (Approve now project_id) = approve_project s now project_id"

fun run_ops :: "db \<Rightarrow> op list \<Rightarrow> db" where
  "run_ops s [] = s"
| "run_ops s (x # xs) = run_ops (snd (run_op s x)) xs"

subsection \<open>Sample data\<close>

definition empty_db :: db where
  "empty_db = \<lparr>product = [], order = [], project = [], customrequest = []\<rparr>"

definition some_id :: objectid where
  "some_id = ''0123456789abcdef01234567''"

definition noon :: datetime where
  "noon = \<lparr>year = 2024, month = 3, day = 9, hour = 12, minute = 0, second = 0, microsecond = 0\<rparr>"

definition other_id :: objectid where
  "other_id = ''aaaaaaaaaaaaaaaaaaaaaaa1''"

definition icon_product :: document where
  "icon_product =
     \<lparr>oid = Some other_id,
      entries = [(''title'', VStr ''Icon Set''), (''category'', VStr ''icons''),
                 (''featured'', VBool True), (''rating'', VFloat 1.5)]\<rparr>"

definition logo_doc :: document where
  "logo_doc =
     \<lparr>oid = Some some_id,
      entries = [(''title'', VStr ''Logo Pack Deluxe''), (''category'', VStr ''logos''),
                 (''featured'', VBool True), (''rating'', VFloat 4.8),
                 (''created_at'', VDate noon)]\<rparr>"




definition shop_db :: db where
  "shop_db = \<lparr>product = [icon_product, logo_doc], order = [], project = [], customrequest = []\<rparr>"

definition later :: datetime where
  "later = \<lparr>year = 2024, month = 3, day = 9, hour = 13, minute = 30, second = 0, microsecond = 0\<rparr>"

definition brief :: ProjectCreateIn where
  "brief = \<lparr>p_title = ''Brand refresh'', client_email = ''ada@example.com'', request_id = None\<rparr>"

definition studio_db :: db where
  "studio_db = snd (create_project empty_db some_id brief)"

definition remark :: ProofCommentIn where
  "remark = \<lparr>author = ''Ada'', message = ''Larger logo'', pos_x = Some 0.5, pos_y = None\<rparr>"

definition cart :: CheckoutRequest where
  "cart =
     \<lparr>email = ''ada@example.com'',
      items = [\<lparr>product_id = ''p1'', title = ''Logo Pack'', price = 10, license = ''personal'',
                quantity = 1\<rparr>],
      subtotal = 10, coupon_code = None, order_notes = None\<rparr>"

subsection \<open>The words of the claims\<close>

text \<open>
  A run of upload-draft calls on one project, each with its clock reading and its
  URL, that stops with \<open>None\<close> at the first call that fails.
\<close>

fun upload_all :: "db \<Rightarrow> string \<Rightarrow> (datetime \<times> string) list \<Rightarrow> db option" where
  "upload_all s project_id [] = Some s"
| "upload_all s project_id ((now, url) # us) =
     (case upload_draft s now project_id url of
        (Inr r, s') \<Rightarrow> upload_all s' project_id us
      | (Inl e, s') \<Rightarrow> None)"


text \<open>A boolean field is set: it holds \<^verbatim>\<open>True\<close>, or an array in which \<^verbatim>\<open>True\<close> occurs.\<close>

definition flag_set :: "document \<Rightarrow> string \<Rightarrow> bool" where
  "flag_set d k =
     (case field d k of
        Some (VBool b) \<Rightarrow> b
      | Some (VList xs) \<Rightarrow> VBool True \<in> set xs
      | _ \<Rightarrow> False)"

text \<open>A list of documents is sorted by rating, highest first.\<close>

definition rating_of :: "document \<Rightarrow> real" where
  "rating_of d = (case field d ''rating'' of Some (VFloat r) \<Rightarrow> r | _ \<Rightarrow> 0)"

definition rating_desc :: "document list \<Rightarrow> bool" where
  "rating_desc ds = sorted (rev (map rating_of ds))"

text \<open>
  \<open>q\<close> is plain when it has no metacharacter of the pattern language. \<open>q\<close> occurs in
  \<open>t\<close> as a substring, the case of ASCII letters apart; and the title of a document
  (a string, or one of the strings of an array) contains \<open>q\<close> so.
\<close>

definition plain :: "string \<Rightarrow> bool" where
  "plain q = list_all (\<lambda>c. c \<notin> set metachars) q"

definition ci_contains :: "string \<Rightarrow> string \<Rightarrow> bool" where
  "ci_contains q t = sublist (map lower_ascii q) (map lower_ascii t)"

definition str_contains :: "string \<Rightarrow> val \<Rightarrow> bool" where
  "str_contains q v = (case v of VStr t \<Rightarrow> ci_contains q t | _ \<Rightarrow> False)"

definition title_contains :: "string \<Rightarrow> document \<Rightarrow> bool" where
  "title_contains q d =
     (case field d ''title'' of
        None \<Rightarrow> False
      | Some (VList xs) \<Rightarrow> list_ex (str_contains q) xs
      | Some v \<Rightarrow> str_contains q v)"

section \<open>Properties\<close>

subsection \<open>Identifiers\<close>

lemma ObjectId_some_id: "ObjectId some_id = Inr some_id"
  by (simp add: ObjectId_def is_valid_def is_hex_def some_id_def lower_ascii_def)

subsection \<open>Fetching a product\<close>

text \<open>
  C1. The claim: a malformed identifier gives InvalidInput (400), a well-formed one that
  names no product gives NotFound (404). The handler raises the 404 inside its own
  \<^verbatim>\<open>try\<close>, and \<^verbatim>\<open>except Exception\<close> turns it into the 400: on the empty store a
  well-formed identifier is answered with 400, \<^verbatim>\<open>Invalid product id\<close>.
\<close>

theorem get_product_missing_is_400:
  "is_valid some_id \<and> find_one (product empty_db) some_id = None \<and>
   get_product_try empty_db some_id = Inl (HTTPException 404 ''Product not found'') \<and>
   get_product empty_db some_id = Inl (HTTPException 400 ''Invalid product id'')"
  by (simp add: get_product_def get_product_try_def find_one_def empty_db_def is_valid_def
      is_hex_def some_id_def ObjectId_def)

text \<open>Every request that fails is answered with that 400, a malformed identifier too.\<close>

lemma get_product_error: "get_product s p = Inl e \<Longrightarrow> e = HTTPException 400 ''Invalid product id''"
  by (auto simp: get_product_def split: sum.splits)

lemma get_product_malformed:
  "\<not> is_valid p \<Longrightarrow> get_product s p = Inl (HTTPException 400 ''Invalid product id'')"
  by (simp add: get_product_def get_product_try_def ObjectId_def)

subsection \<open>Serialising\<close>

lemma iso_value_idem: "iso_value (iso_value v) = iso_value v"
  by (simp add: iso_value_def split: val.splits)

lemma convert_datetime_idem: "convert_datetime (convert_datetime kv) = convert_datetime kv"
  by (simp add: convert_datetime_def iso_value_idem)

lemma convert_datetime_comp: "convert_datetime \<circ> convert_datetime = convert_datetime"
  by (rule ext) (simp add: convert_datetime_idem)

lemma map_convert_update:
  "map convert_datetime (AList.update k (VStr v) es) =
   AList.update k (VStr v) (map convert_datetime es)"
  by (induction es) (auto simp: convert_datetime_def iso_value_def)

lemma update_update: "AList.update k w (AList.update k v es) = AList.update k w es"
  by (induction es) auto

lemma serialize_doc_again:
  "serialize_doc (serialize_doc d) =
     (if oid d = None \<and> entries d = [] then d
      else \<lparr>oid = None, entries = AList.update ''id'' (VStr ''None'') (entries (serialize_doc d))\<rparr>)"
  by (simp add: serialize_doc_def map_convert_update update_update str_id_def
      convert_datetime_comp)

lemma oid_serialize_doc: "oid (serialize_doc d) = None"
  by (simp add: serialize_doc_def)

text \<open>
  C2, as stated: serialising twice gives what serialising once gives. It fails on
  every document that has an \<^verbatim>\<open>_id\<close>: the first pass removes \<^verbatim>\<open>_id\<close>, so the second
  pass writes \<^verbatim>\<open>str(None)\<close> over \<^verbatim>\<open>id\<close>.
\<close>

theorem serialize_doc_not_idempotent:
  "serialize_doc (serialize_doc logo_doc) \<noteq> serialize_doc logo_doc"
proof
  assume "serialize_doc (serialize_doc logo_doc) = serialize_doc logo_doc"
  then have "field (serialize_doc (serialize_doc logo_doc)) ''id'' = field (serialize_doc logo_doc) ''id''"
    by simp
  then show False
    by (simp add: serialize_doc_def logo_doc_def field_def convert_datetime_def iso_value_def
        str_id_def some_id_def)
qed

text \<open>
  C2, amended: a second pass keeps the keys and their order, keeps every field other
  than \<^verbatim>\<open>id\<close> (the converted timestamps are strings and pass through), and leaves
  \<^verbatim>\<open>_id\<close> absent; it is the identity on what a document without \<^verbatim>\<open>_id\<close> serialises
  to, and on a document that had an \<^verbatim>\<open>_id\<close> it replaces \<^verbatim>\<open>id\<close> by the string
  \<^verbatim>\<open>None\<close>.
\<close>

theorem serialize_doc_twice:
  "oid (serialize_doc (serialize_doc d)) = oid (serialize_doc d) \<and>
   map fst (entries (serialize_doc (serialize_doc d))) = map fst (entries (serialize_doc d)) \<and>
   (\<forall>k. k \<noteq> ''id'' \<longrightarrow> field (serialize_doc (serialize_doc d)) k = field (serialize_doc d) k) \<and>
   (oid d = None \<longrightarrow> serialize_doc (serialize_doc d) = serialize_doc d) \<and>
   (oid d \<noteq> None \<longrightarrow> field (serialize_doc (serialize_doc d)) ''id'' = Some (VStr ''None''))"
proof (cases "oid d = None \<and> entries d = []")
  case True
  then show ?thesis by (simp add: serialize_doc_def)
next
  case False
  let ?s = "serialize_doc d"
  have again: "serialize_doc ?s = \<lparr>oid = None, entries = AList.update ''id'' (VStr ''None'') (entries ?s)\<rparr>"
    using False by (auto simp: serialize_doc_again)
  have has_id: "map_of (entries ?s) ''id'' = Some (VStr (str_id (oid d)))"
    using False by (simp add: serialize_doc_def map_convert_update update_conv')
  have keys: "map fst (entries (serialize_doc ?s)) = map fst (entries ?s)"
    using has_id by (simp add: again update_keys) (metis domI dom_map_of_conv_image_fst)
  have others: "\<forall>k. k \<noteq> ''id'' \<longrightarrow> field (serialize_doc ?s) k = field ?s k"
    by (simp add: again field_def update_conv')
  have same: "oid d = None \<longrightarrow> serialize_doc ?s = ?s"
  proof
    assume "oid d = None"
    then have "AList.update ''id'' (VStr ''None'') (entries ?s) = entries ?s"
      using has_id by (simp add: str_id_def update_triv)
    then show "serialize_doc ?s = ?s"
      by (simp add: again oid_serialize_doc)
  qed
  have new_id: "field (serialize_doc ?s) ''id'' = Some (VStr ''None'')"
    by (simp add: again field_def update_conv')
  show ?thesis
    using keys others same new_id by (simp add: oid_serialize_doc)
qed

theorem serialize_doc_twice_witness:
  "oid logo_doc \<noteq> None \<and>
   field (serialize_doc (serialize_doc logo_doc)) ''id'' = Some (VStr ''None'') \<and>
   field (serialize_doc logo_doc) ''id'' = Some (VStr some_id) \<and>
   field (serialize_doc (serialize_doc logo_doc)) ''created_at'' = Some (VStr ''2024-03-09T12:00:00'') \<and>
   oid (serialize_doc logo_doc) = None \<and>
   serialize_doc (serialize_doc (serialize_doc logo_doc)) = serialize_doc (serialize_doc logo_doc)"
proof -
  have a: "oid logo_doc \<noteq> None"
    by (simp add: logo_doc_def)
  have b: "field (serialize_doc logo_doc) ''id'' = Some (VStr some_id)"
    by (simp add: serialize_doc_def logo_doc_def field_def convert_datetime_def iso_value_def
        str_id_def)
  have c: "field (serialize_doc logo_doc) ''created_at'' = Some (VStr ''2024-03-09T12:00:00'')"
    by (simp add: serialize_doc_def logo_doc_def field_def convert_datetime_def iso_value_def
        isoformat_def noon_def zpad_def digit_char_def)
  have d: "oid (serialize_doc logo_doc) = None"
    by (simp add: oid_serialize_doc)
  have e: "serialize_doc (serialize_doc (serialize_doc logo_doc)) = serialize_doc (serialize_doc logo_doc)"
    using serialize_doc_twice [of "serialize_doc logo_doc"] d by blast
  show ?thesis
    using serialize_doc_twice [of logo_doc] a b c d e by simp
qed

lemma map_of_convert: "map_of (map convert_datetime es) k = map_option iso_value (map_of es k)"
  by (induction es) (auto simp: convert_datetime_def)

lemma field_serialize_doc:
  "k \<noteq> ''id'' \<Longrightarrow> field (serialize_doc d) k = map_option iso_value (field d k)"
  by (simp add: serialize_doc_def field_def map_of_convert update_conv')

subsection \<open>Featured products\<close>

lemma flag_set_serialize_doc: "flag_set (serialize_doc d) ''featured'' = flag_set d ''featured''"
  by (simp add: flag_set_def field_serialize_doc iso_value_def split: option.splits val.splits)

lemma matches_featured: "matches [(''featured'', EqBool True)] d = flag_set d ''featured''"
  by (auto simp: matches_def cond_match_def flag_set_def list_ex_iff split: option.splits val.splits)

lemma cursor_limit_subseq: "subseq (cursor_limit n xs) xs"
  by (simp add: cursor_limit_def) (metis append_take_drop_id list_emb_append2 subseq_order.order_refl prefix_def prefix_imp_subseq)

lemma set_cursor_limit: "set (cursor_limit n xs) \<subseteq> set xs"
  by (simp add: cursor_limit_def set_take_subset)

text \<open>
  C3, amended: the featured listing returns only products whose featured flag is set,
  in store order and unsorted: for a positive limit, the first \<open>limit\<close> of them as the
  store lists them. The limit is 8 when none is given.
\<close>

theorem featured_products_store_order:
  "(\<forall>r \<in> set (featured_products s limit). flag_set r ''featured'') \<and>
   subseq (featured_products s limit) (map serialize_doc (product s)) \<and>
   featured_products s None = featured_products s (Some 8) \<and>
   (0 < l \<longrightarrow> featured_products s (Some l) =
      map serialize_doc (take (nat l) (filter (\<lambda>d. flag_set d ''featured'') (product s))))"
proof -
  have flt: "find_docs (product s) [(''featured'', EqBool True)] = filter (\<lambda>d. flag_set d ''featured'') (product s)"
    unfolding find_docs_def by (rule filter_cong) (simp_all add: matches_featured)
  have a: "\<forall>r \<in> set (featured_products s limit). flag_set r ''featured''"
    using set_cursor_limit [of "default_to 8 limit" "filter (\<lambda>d. flag_set d ''featured'') (product s)"]
    by (auto simp: featured_products_def flt flag_set_serialize_doc)
  have "subseq (cursor_limit (default_to 8 limit) (filter (\<lambda>d. flag_set d ''featured'') (product s))) (product s)"
    by (rule subseq_order.order_trans [OF cursor_limit_subseq]) simp
  then have b: "subseq (featured_products s limit) (map serialize_doc (product s))"
    by (simp add: featured_products_def flt subseq_map)
  have c: "featured_products s None = featured_products s (Some 8)"
    by (simp add: featured_products_def default_to_def)
  have d: "0 < l \<longrightarrow> featured_products s (Some l) =
      map serialize_doc (take (nat l) (filter (\<lambda>d. flag_set d ''featured'') (product s)))"
    by (simp add: featured_products_def flt default_to_def cursor_limit_def)
  show ?thesis using a b c d by blast
qed

text \<open>
  C3, as stated: the featured listing is sorted by rating, highest first. The handler
  sends \<^verbatim>\<open>find({"featured": True}).limit(limit)\<close> with no sort: a store that lists
  the product rated 1.5 before the one rated 4.8 gets them back in that order.
\<close>

theorem featured_products_not_sorted:
  "\<not> rating_desc (featured_products shop_db None)"
  by code_simp


theorem featured_products_store_order_witness:
  "map rating_of (featured_products shop_db (Some 8)) = [1.5, 4.8] \<and>
   featured_products shop_db (Some 1) = [serialize_doc icon_product] \<and>
   featured_products shop_db None = featured_products shop_db (Some 8)"
proof -
  have one: "(0::int) < 1" by simp
  have fl: "filter (\<lambda>d. flag_set d ''featured'') (product shop_db) = [icon_product, logo_doc]"
    by (simp add: shop_db_def flag_set_def field_def icon_product_def logo_doc_def)
  have r1: "rating_of (serialize_doc icon_product) = 1.5"
    by (simp add: serialize_doc_def rating_of_def field_def icon_product_def convert_datetime_def iso_value_def)
  have r2: "rating_of (serialize_doc logo_doc) = 4.8"
    by (simp add: serialize_doc_def rating_of_def field_def logo_doc_def convert_datetime_def iso_value_def)
  have eight: "(0::int) < 8" by simp
  from featured_products_store_order [of shop_db None 8] eight fl r1 r2
  have "map rating_of (featured_products shop_db (Some 8)) = [1.5, 4.8]" by simp
  moreover from featured_products_store_order [of shop_db None 1] one fl
  have "featured_products shop_db (Some 1) = [serialize_doc icon_product]" by simp
  moreover from featured_products_store_order [of shop_db None 1]
  have "featured_products shop_db None = featured_products shop_db (Some 8)" by blast
  ultimately show ?thesis by blast
qed

subsection \<open>Listing products by a free-text query\<close>

lemma compile_plain: "plain q \<Longrightarrow> compile q = Some (map Lit q)"
  by (induction q) (auto simp: plain_def metachars_def)

lemma match_here_lits:
  "match_here True b (map Lit q) t = prefix (map lower_ascii q) (map lower_ascii t)"
proof (induction q arbitrary: t b)
  case Nil
  then show ?case by simp
next
  case (Cons a q)
  then show ?case by (cases t) auto
qed

lemma search_from_lits:
  "search_from True b (map Lit q) t = ci_contains q t"
proof (induction t arbitrary: b)
  case Nil
  then show ?case by (cases q) (simp_all add: ci_contains_def)
next
  case (Cons c t)
  then show ?case
    by (simp add: ci_contains_def match_here_lits sublist_Cons_right del: match_here.simps)
qed

lemma regex_search_lits:
  "regex_search True (map Lit q) t = ci_contains q t"
  by (simp add: regex_search_def search_from_lits)

lemma update_absent: "k \<notin> fst ` set al \<Longrightarrow> AList.update k v al = al @ [(k, v)]"
  by (induction al) auto

lemma set_update_subset: "set (AList.update k v al) \<subseteq> insert (k, v) (set al)"
  by (induction al) auto

lemma set_if_keys: "fst ` set (set_if p k mk flt) \<subseteq> insert k (fst ` set flt)"
  by (auto simp: set_if_def dom_update split: option.splits)

lemma products_filter_keys:
  "fst ` set (products_filter c st col) \<subseteq> {''category'', ''style'', ''color''}"
  unfolding products_filter_def
  using set_if_keys [of col "''color''" EqStr "set_if st ''style'' EqStr (set_if c ''category'' EqStr [])"]
    set_if_keys [of st "''style''" EqStr "set_if c ''category'' EqStr []"]
    set_if_keys [of c "''category''" EqStr "[]"]
  by auto

lemma title_not_in_products_filter: "''title'' \<notin> fst ` set (products_filter c st col)"
  using products_filter_keys [of c st col] by auto

lemma matches_append:
  "matches (flt @ [(k, c)]) d = (matches flt d \<and> cond_match c (field d k))"
  by (simp add: matches_def)

lemma holds_regex_lits: "holds (Regex (map Lit q) ''i'') v = str_contains q v"
  by (simp add: str_contains_def regex_search_lits split: val.splits)

lemma cond_match_title:
  "cond_match (Regex (map Lit q) ''i'') (field d ''title'') = title_contains q d"
proof -
  have "holds (Regex (map Lit q) ''i'') = str_contains q"
    by (rule ext) (rule holds_regex_lits)
  then show ?thesis
    by (simp add: cond_match_def title_contains_def split: option.splits val.splits)
qed

lemma find_docs_title:
  "find_docs coll (AList.update ''title'' (Regex (map Lit q) ''i'') (products_filter c st col)) =
   filter (title_contains q) (find_docs coll (products_filter c st col))"
proof -
  have "matches (products_filter c st col @ [(''title'', Regex (map Lit q) ''i'')]) =
        (\<lambda>d. matches (products_filter c st col) d \<and> title_contains q d)"
    by (rule ext) (simp add: matches_append cond_match_title)
  then show ?thesis
    by (simp add: find_docs_def update_absent [OF title_not_in_products_filter] conj_commute)
qed

text \<open>
  C7, amended: \<open>q\<close> is a pattern. For a plain, non-empty \<open>q\<close> the listing returns the
  stored products that pass the other filters and whose title contains \<open>q\<close> as a
  substring, the case of letters apart, in store order and cut to the limit (24 when
  none is given).
\<close>

theorem list_products_plain_query:
  assumes "plain q" and "q \<noteq> []"
  shows "list_products s c st col (Some q) limit =
     Some (map serialize_doc (cursor_limit (default_to 24 limit)
            (filter (title_contains q) (find_docs (product s) (products_filter c st col)))))"
  using assms
  by (simp add: list_products_def filter_q_def compile_plain get_documents_def find_docs_title)

text \<open>
  C7, as stated: the listing returns exactly the products whose title contains \<open>q\<close> as
  a substring. The handler sends \<open>q\<close> as \<^verbatim>\<open>$regex\<close>, so \<^verbatim>\<open>q = "."\<close> returns every
  product with a non-empty title, none of which contains a full stop.
\<close>

theorem list_products_dot_matches_all:
  "list_products shop_db None None None (Some ''.'') None =
     Some [serialize_doc icon_product, serialize_doc logo_doc] \<and>
   \<not> title_contains ''.'' icon_product \<and> \<not> title_contains ''.'' logo_doc"
  by code_simp

text \<open>
  The example of the claim: \<^verbatim>\<open>q = "logo"\<close> finds \<^verbatim>\<open>Logo Pack Deluxe\<close> and not
  \<^verbatim>\<open>Icon Set\<close>.
\<close>

theorem list_products_plain_query_witness:
  "plain ''logo'' \<and> ''logo'' \<noteq> [] \<and>
   list_products shop_db None None None (Some ''logo'') None = Some [serialize_doc logo_doc] \<and>
   title_contains ''logo'' logo_doc \<and> \<not> title_contains ''logo'' icon_product"
proof -
  have p: "plain ''logo''" by (simp add: plain_def metachars_def)
  have n: "''logo'' \<noteq> []" by simp
  have a: "title_contains ''logo'' logo_doc" by code_simp
  have b: "\<not> title_contains ''logo'' icon_product" by code_simp
  have f: "find_docs (product shop_db) (products_filter None None None) = [icon_product, logo_doc]"
    by (simp add: find_docs_def products_filter_def set_if_def matches_def shop_db_def)
  show ?thesis
    using list_products_plain_query [OF p n, of shop_db None None None None] a b f p
    by (simp add: default_to_def cursor_limit_def)
qed

subsection \<open>Updating one document\<close>

lemma apply_push_other:
  "apply_push ps es = Inr es' \<Longrightarrow> k \<notin> fst ` set ps \<Longrightarrow> map_of es' k = map_of es k"
proof (induction ps es rule: apply_push.induct)
  case (1 es)
  then show ?case by simp
next
  case (2 k' v ps es)
  then show ?case
    by (auto simp: update_conv' split: option.splits val.splits)
qed

lemma apply_set_other:
  "k \<notin> fst ` set ps \<Longrightarrow> map_of (apply_set ps es) k = map_of es k"
  by (induction ps es rule: apply_set.induct) (auto simp: update_conv')

lemma apply_update_other:
  "apply_update u es = Inr es' \<Longrightarrow> k \<notin> fst ` set (u_push u) \<Longrightarrow> k \<notin> fst ` set (u_set u) \<Longrightarrow>
   map_of es' k = map_of es k"
  by (auto simp: apply_update_def apply_push_other apply_set_other split: sum.splits)

lemma update_one_none: "find_one coll i = None \<Longrightarrow> update_one coll i u = Inr (coll, 0)"
  by (induction coll) (auto simp: find_one_def split: if_splits)

lemma update_one_fail:
  "find_one coll i = Some d \<Longrightarrow> apply_update u (entries d) = Inl e \<Longrightarrow> update_one coll i u = Inl e"
  by (induction coll) (auto simp: find_one_def split: if_splits)

lemma update_one_some:
  "find_one coll i = Some d \<Longrightarrow> apply_update u (entries d) = Inr es \<Longrightarrow>
   \<exists>coll'. update_one coll i u = Inr (coll', 1) \<and>
     find_one coll' i = Some (d\<lparr>entries := es\<rparr>) \<and>
     (\<forall>j. j \<noteq> i \<longrightarrow> find_one coll' j = find_one coll j)"
  by (induction coll) (auto simp: find_one_def split: if_splits)

text \<open>The four ways \<open>update_project\<close> ends.\<close>

lemma update_project_invalid:
  "ObjectId p = Inl e \<Longrightarrow> update_project s p u = (Inl e, s)"
  by (simp add: update_project_def)

lemma update_project_missing:
  "ObjectId p = Inr i \<Longrightarrow> find_one (project s) i = None \<Longrightarrow>
   update_project s p u = (Inl (HTTPException 404 ''Project not found''), s)"
  by (simp add: update_project_def update_one_none)

lemma update_project_write_error:
  "ObjectId p = Inr i \<Longrightarrow> find_one (project s) i = Some d \<Longrightarrow>
   apply_update u (entries d) = Inl e \<Longrightarrow> update_project s p u = (Inl e, s)"
  by (simp add: update_project_def update_one_fail)

lemma update_project_done:
  assumes "ObjectId p = Inr i" and "find_one (project s) i = Some d"
    and "apply_update u (entries d) = Inr es"
  shows "\<exists>coll'. update_project s p u =
            (Inr (Some (serialize_doc (d\<lparr>entries := es\<rparr>))), s\<lparr>project := coll'\<rparr>) \<and>
          find_one coll' i = Some (d\<lparr>entries := es\<rparr>) \<and>
          (\<forall>j. j \<noteq> i \<longrightarrow> find_one coll' j = find_one (project s) j)"
proof -
  from update_one_some [OF assms(2,3)] obtain coll' where
    c: "update_one (project s) i u = Inr (coll', 1)"
      "find_one coll' i = Some (d\<lparr>entries := es\<rparr>)"
      "\<forall>j. j \<noteq> i \<longrightarrow> find_one coll' j = find_one (project s) j"
    by blast
  then show ?thesis
    using assms(1) by (auto simp: update_project_def serialize_opt_def)
qed

lemma update_project_failed:
  "fst (update_project s p u) = Inl e \<Longrightarrow> snd (update_project s p u) = s"
proof (cases "ObjectId p")
  case (Inl a)
  then show ?thesis by (simp add: update_project_invalid)
next
  case (Inr i)
  assume f: "fst (update_project s p u) = Inl e"
  show ?thesis
  proof (cases "find_one (project s) i")
    case None
    then show ?thesis using Inr by (simp add: update_project_missing)
  next
    case (Some d)
    show ?thesis
    proof (cases "apply_update u (entries d)")
      case (Inl a)
      then show ?thesis using Inr Some by (simp add: update_project_write_error)
    next
      case (Inr es)
      with update_project_done [OF \<open>ObjectId p = Inr i\<close> Some Inr] f show ?thesis by auto
    qed
  qed
qed

lemma update_project_field:
  "project_field (snd (update_project s p u)) j k = project_field s j k \<or>
   (ObjectId p = Inr j \<and>
    (\<exists>d es. find_one (project s) j = Some d \<and> apply_update u (entries d) = Inr es \<and>
       project_field (snd (update_project s p u)) j k = map_of es k))"
proof (cases "ObjectId p")
  case (Inl a)
  then show ?thesis by (simp add: update_project_invalid)
next
  case (Inr i)
  show ?thesis
  proof (cases "find_one (project s) i")
    case None
    then show ?thesis using Inr by (simp add: update_project_missing)
  next
    case (Some d)
    show ?thesis
    proof (cases "apply_update u (entries d)")
      case (Inl a)
      then show ?thesis using \<open>ObjectId p = Inr i\<close> Some by (simp add: update_project_write_error)
    next
      case (Inr es)
      from update_project_done [OF \<open>ObjectId p = Inr i\<close> Some Inr] obtain coll' where
        c: "update_project s p u =
            (Inr (Some (serialize_doc (d\<lparr>entries := es\<rparr>))), s\<lparr>project := coll'\<rparr>)"
          "find_one coll' i = Some (d\<lparr>entries := es\<rparr>)"
          "\<forall>j. j \<noteq> i \<longrightarrow> find_one coll' j = find_one (project s) j"
        by blast
      show ?thesis
      proof (cases "j = i")
        case True
        then show ?thesis
          using c Some Inr \<open>ObjectId p = Inr i\<close> by (simp add: project_field_def field_def)
      next
        case False
        then show ?thesis using c by (simp add: project_field_def)
      qed
    qed
  qed
qed

lemma update_project_keeps:
  assumes "k \<notin> fst ` set (u_push u)" and "k \<notin> fst ` set (u_set u)"
  shows "project_field (snd (update_project s p u)) j k = project_field s j k"
  using update_project_field [of s p u j k] assms
  by (auto simp: project_field_def field_def dest: apply_update_other)


subsection \<open>Status\<close>

lemma upload_draft_keeps:
  "k \<noteq> ''drafts'' \<Longrightarrow> k \<noteq> ''updated_at'' \<Longrightarrow>
   project_field (snd (upload_draft s now p url)) j k = project_field s j k"
  unfolding upload_draft_def by (rule update_project_keeps) simp_all

lemma add_comment_keeps:
  "k \<noteq> ''comments'' \<Longrightarrow> k \<noteq> ''updated_at'' \<Longrightarrow>
   project_field (snd (add_comment s now1 now2 p payload)) j k = project_field s j k"
  unfolding add_comment_def by (rule update_project_keeps) simp_all

lemma approve_project_keeps:
  "k \<noteq> ''status'' \<Longrightarrow> k \<noteq> ''approved_at'' \<Longrightarrow>
   project_field (snd (approve_project s now p)) j k = project_field s j k"
  unfolding approve_project_def by (rule update_project_keeps) simp_all

lemma approve_update:
  "apply_update \<lparr>u_push = [], u_set = [(''status'', VStr ''approved''), (''approved_at'', VDate now)]\<rparr> es =
     Inr (AList.update ''approved_at'' (VDate now) (AList.update ''status'' (VStr ''approved'') es))"
  by (simp add: apply_update_def)

lemma approve_project_status:
  "project_field (snd (approve_project s now p)) j ''status'' = project_field s j ''status'' \<or>
   project_field (snd (approve_project s now p)) j ''status'' = Some (VStr ''approved'')"
  using update_project_field [of s p
      "\<lparr>u_push = [], u_set = [(''status'', VStr ''approved''), (''approved_at'', VDate now)]\<rparr>" j "''status''"]
  by (auto simp: approve_project_def approve_update update_conv')

lemma run_op_status:
  "project_field (snd (run_op s x)) j ''status'' = project_field s j ''status'' \<or>
   project_field (snd (run_op s x)) j ''status'' = Some (VStr ''approved'')"
  by (cases x) (simp_all add: upload_draft_keeps add_comment_keeps approve_project_status)

lemma run_ops_approved:
  "project_field s j ''status'' = Some (VStr ''approved'') \<Longrightarrow>
   project_field (run_ops s ops) j ''status'' = Some (VStr ''approved'')"
proof (induction ops arbitrary: s)
  case Nil
  then show ?case by simp
next
  case (Cons x ops)
  from run_op_status [of s x j] Cons.prems
  have "project_field (snd (run_op s x)) j ''status'' = Some (VStr ''approved'')" by auto
  then show ?case by (simp add: Cons.IH)
qed

lemma run_ops_in_progress:
  "project_field s j ''status'' = Some (VStr ''in_progress'') \<Longrightarrow>
   project_field (run_ops s ops) j ''status'' = Some (VStr ''in_progress'') \<or>
   project_field (run_ops s ops) j ''status'' = Some (VStr ''approved'')"
proof (induction ops arbitrary: s)
  case Nil
  then show ?case by simp
next
  case (Cons x ops)
  from run_op_status [of s x j] Cons.prems
  consider "project_field (snd (run_op s x)) j ''status'' = Some (VStr ''in_progress'')"
    | "project_field (snd (run_op s x)) j ''status'' = Some (VStr ''approved'')" by auto
  then show ?case
  proof cases
    case 1
    then show ?thesis using Cons.IH by simp
  next
    case 2
    then show ?thesis using run_ops_approved by simp
  qed
qed

text \<open>
  C9. Upload-draft and add-comment never change the status of any project. Under any
  sequence of upload-draft, add-comment and approve calls (on any identifiers, failing
  or not), a project that is \<^verbatim>\<open>in_progress\<close> is afterwards \<^verbatim>\<open>in_progress\<close> or
  \<^verbatim>\<open>approved\<close>, and a project that is \<^verbatim>\<open>approved\<close> stays so.
\<close>

theorem status_only_forward:
  "project_field (snd (upload_draft s now p url)) j ''status'' = project_field s j ''status'' \<and>
   project_field (snd (add_comment s now1 now2 p payload)) j ''status'' = project_field s j ''status'' \<and>
   (project_field s j ''status'' = Some (VStr ''in_progress'') \<longrightarrow>
      project_field (run_ops s ops) j ''status'' = Some (VStr ''in_progress'') \<or>
      project_field (run_ops s ops) j ''status'' = Some (VStr ''approved'')) \<and>
   (project_field s j ''status'' = Some (VStr ''approved'') \<longrightarrow>
      project_field (run_ops s ops) j ''status'' = Some (VStr ''approved''))"
  using run_ops_in_progress [of s j ops] run_ops_approved [of s j ops]
  by (simp add: upload_draft_keeps add_comment_keeps)

lemma studio_project:
  "project studio_db = [\<lparr>oid = Some some_id, entries = project_doc brief\<rparr>]"
  by (simp add: studio_db_def create_project_def create_document_def insert_one_def empty_db_def
      ObjectId_some_id)

lemma studio_status: "project_field studio_db some_id ''status'' = Some (VStr ''in_progress'')"
  by (simp add: project_field_def find_one_def studio_project field_def project_doc_def)

theorem status_only_forward_witness:
  "project_field studio_db some_id ''status'' = Some (VStr ''in_progress'') \<and>
   project_field (run_ops studio_db [UploadDraft noon some_id ''https://cdn/draft1.png'']) some_id ''status'' =
     Some (VStr ''in_progress'') \<and>
   project_field (run_ops studio_db
       [UploadDraft noon some_id ''https://cdn/draft1.png'', Approve later some_id,
        AddComment later later some_id remark]) some_id ''status'' = Some (VStr ''approved'')"
proof -
  let ?s1 = "run_ops studio_db [UploadDraft noon some_id ''https://cdn/draft1.png'']"
  have a: "?s1 = snd (upload_draft studio_db noon some_id ''https://cdn/draft1.png'')"
    by simp
  have b: "project_field ?s1 some_id ''status'' = Some (VStr ''in_progress'')"
    using status_only_forward [of studio_db noon some_id "''https://cdn/draft1.png''" some_id]
      studio_status
    by (simp only: a)
  have find: "find_one (project ?s1) some_id \<noteq> None"
    using b by (auto simp: project_field_def split: option.splits)
  let ?s2 = "snd (approve_project ?s1 later some_id)"
  have c: "project_field ?s2 some_id ''status'' = Some (VStr ''approved'')"
  proof -
    obtain d where d: "find_one (project ?s1) some_id = Some d" using find by auto
    from update_project_done [OF ObjectId_some_id d approve_update [of later "entries d"]]
    show ?thesis
      by (auto simp: approve_project_def project_field_def field_def update_conv')
  qed
  have "project_field (run_ops ?s2 [AddComment later later some_id remark]) some_id ''status'' =
      Some (VStr ''approved'')"
    using status_only_forward [of ?s2 _ _ _ some_id _ _ _ "[AddComment later later some_id remark]"] c
    by blast
  then show ?thesis
    using studio_status b by simp
qed

subsection \<open>Approval\<close>

lemma approve_project_existing:
  assumes "ObjectId p = Inr i" and "find_one (project s) i = Some d"
  shows "\<exists>r s'. approve_project s now p = (Inr (Some r), s') \<and>
           project_field s' i ''status'' = Some (VStr ''approved'') \<and>
           project_field s' i ''approved_at'' = Some (VDate now) \<and>
           field r ''status'' = Some (VStr ''approved'') \<and>
           field r ''approved_at'' = Some (VStr (isoformat now))"
proof -
  let ?es = "AList.update ''approved_at'' (VDate now) (AList.update ''status'' (VStr ''approved'') (entries d))"
  from update_project_done [OF assms approve_update [of now "entries d"]]
  obtain coll' where
    c: "approve_project s now p = (Inr (Some (serialize_doc (d\<lparr>entries := ?es\<rparr>))), s\<lparr>project := coll'\<rparr>)"
      "find_one coll' i = Some (d\<lparr>entries := ?es\<rparr>)"
    by (auto simp: approve_project_def)
  have "field (serialize_doc (d\<lparr>entries := ?es\<rparr>)) ''status'' = Some (VStr ''approved'')"
    "field (serialize_doc (d\<lparr>entries := ?es\<rparr>)) ''approved_at'' = Some (VStr (isoformat now))"
    by (simp_all add: field_serialize_doc) (simp_all add: field_def update_conv' iso_value_def)
  then show ?thesis
    using c by (simp add: project_field_def field_def update_conv')
qed

text \<open>
  C5, as stated: approving an identifier that names no project returns NotFound. The
  identifier \<^verbatim>\<open>nope\<close> names no project; \<^verbatim>\<open>ObjectId\<close> rejects it before the store is
  asked, and the handler does not catch that.
\<close>

theorem approve_project_malformed_id:
  "find_one (project studio_db) ''nope'' = None \<and>
   fst (approve_project studio_db noon ''nope'') = Inl InvalidId \<and>
   fst (approve_project studio_db noon ''nope'') \<noteq> Inl (HTTPException 404 ''Project not found'')"
  by (simp add: approve_project_def update_project_def ObjectId_def is_valid_def find_one_def
      studio_project some_id_def)

text \<open>
  C5, amended: approving an existing project sets its status to \<^verbatim>\<open>approved\<close> and its
  \<^verbatim>\<open>approved_at\<close> to the current time, whatever its status was, and answers with the
  serialised project; approving a well-formed identifier that names no project returns
  NotFound and leaves the store as it was; and every approve call that fails leaves the
  store as it was.
\<close>

theorem approve_project_sets_approved:
  "(ObjectId p = Inr i \<and> find_one (project s) i \<noteq> None \<longrightarrow>
      (\<exists>r s'. approve_project s now p = (Inr (Some r), s') \<and>
         project_field s' i ''status'' = Some (VStr ''approved'') \<and>
         project_field s' i ''approved_at'' = Some (VDate now) \<and>
         field r ''status'' = Some (VStr ''approved'') \<and>
         field r ''approved_at'' = Some (VStr (isoformat now)))) \<and>
   (ObjectId p = Inr i \<and> find_one (project s) i = None \<longrightarrow>
      approve_project s now p = (Inl (HTTPException 404 ''Project not found''), s)) \<and>
   (fst (approve_project s now p) = Inl e \<longrightarrow> snd (approve_project s now p) = s)"
  using approve_project_existing [of p i s _ now]
  by (auto simp: approve_project_def update_project_missing update_project_failed)

lemma studio_find: "find_one (project studio_db) some_id = Some \<lparr>oid = Some some_id, entries = project_doc brief\<rparr>"
  by (simp add: find_one_def studio_project)

theorem approve_project_sets_approved_witness:
  "ObjectId some_id = Inr some_id \<and> find_one (project studio_db) some_id \<noteq> None \<and>
   ObjectId other_id = Inr other_id \<and> find_one (project studio_db) other_id = None \<and>
   project_field (snd (approve_project studio_db noon some_id)) some_id ''status'' = Some (VStr ''approved'') \<and>
   project_field (snd (approve_project studio_db noon some_id)) some_id ''approved_at'' = Some (VDate noon) \<and>
   approve_project studio_db noon other_id = (Inl (HTTPException 404 ''Project not found''), studio_db)"
proof -
  have o: "ObjectId other_id = Inr other_id"
    by (simp add: ObjectId_def is_valid_def is_hex_def other_id_def lower_ascii_def)
  have n: "find_one (project studio_db) other_id = None"
    by (simp add: find_one_def studio_project other_id_def some_id_def)
  have f: "find_one (project studio_db) some_id \<noteq> None"
    by (simp add: studio_find)
  have a: "project_field (snd (approve_project studio_db noon some_id)) some_id ''status'' = Some (VStr ''approved'') \<and>
      project_field (snd (approve_project studio_db noon some_id)) some_id ''approved_at'' = Some (VDate noon)"
    using approve_project_sets_approved [where p = some_id and i = some_id and s = studio_db
        and now = noon and e = InvalidId] ObjectId_some_id f
    by auto
  have b: "approve_project studio_db noon other_id = (Inl (HTTPException 404 ''Project not found''), studio_db)"
    using approve_project_sets_approved [where p = other_id and i = other_id and s = studio_db
        and now = noon and e = InvalidId] o n
    by blast
  show ?thesis
    using ObjectId_some_id f o n a b by simp
qed

text \<open>
  C4, as stated: once a project is approved, no later call changes \<^verbatim>\<open>approved_at\<close>,
  a second approve included. The approve handler has no guard: approved at noon and
  again at half past one, the project carries the second time.
\<close>

theorem approved_at_overwritten:
  "project_field (snd (approve_project studio_db noon some_id)) some_id ''approved_at'' =
     Some (VDate noon) \<and>
   project_field (snd (approve_project (snd (approve_project studio_db noon some_id)) later some_id))
     some_id ''approved_at'' = Some (VDate later) \<and>
   noon \<noteq> later"
proof -
  let ?s1 = "snd (approve_project studio_db noon some_id)"
  from approve_project_existing [OF ObjectId_some_id studio_find, of noon]
  have a: "project_field ?s1 some_id ''approved_at'' = Some (VDate noon)" by auto
  then obtain d where d: "find_one (project ?s1) some_id = Some d"
    by (auto simp: project_field_def split: option.splits)
  from approve_project_existing [OF ObjectId_some_id d, of later]
  have b: "project_field (snd (approve_project ?s1 later some_id)) some_id ''approved_at'' = Some (VDate later)"
    by auto
  show ?thesis
    using a b by (simp add: noon_def later_def)
qed

text \<open>
  C4, amended: \<^verbatim>\<open>approved_at\<close> is written by approve calls only. Upload-draft and
  add-comment never change it, on any project; an approve call changes it on no
  project but the one it names; and every approve call on an existing project, the
  first or a later one, sets it to the time of that call.
\<close>

theorem approved_at_set_by_approve:
  "project_field (snd (upload_draft s now p url)) j ''approved_at'' = project_field s j ''approved_at'' \<and>
   project_field (snd (add_comment s now1 now2 p payload)) j ''approved_at'' =
     project_field s j ''approved_at'' \<and>
   (ObjectId p \<noteq> Inr j \<longrightarrow>
      project_field (snd (approve_project s now p)) j ''approved_at'' = project_field s j ''approved_at'') \<and>
   (ObjectId p = Inr j \<and> find_one (project s) j \<noteq> None \<longrightarrow>
      project_field (snd (approve_project s now p)) j ''approved_at'' = Some (VDate now))"
proof -
  have other: "ObjectId p \<noteq> Inr j \<longrightarrow>
      project_field (snd (approve_project s now p)) j ''approved_at'' = project_field s j ''approved_at''"
    using update_project_field [of s p
      "\<lparr>u_push = [], u_set = [(''status'', VStr ''approved''), (''approved_at'', VDate now)]\<rparr>" j "''approved_at''"]
    by (auto simp: approve_project_def)
  have this_one: "ObjectId p = Inr j \<and> find_one (project s) j \<noteq> None \<longrightarrow>
      project_field (snd (approve_project s now p)) j ''approved_at'' = Some (VDate now)"
    using approve_project_existing [of p j s _ now] by auto
  show ?thesis
    using other this_one by (simp add: upload_draft_keeps add_comment_keeps)
qed

theorem approved_at_set_by_approve_witness:
  "ObjectId some_id = Inr some_id \<and> find_one (project studio_db) some_id \<noteq> None \<and>
   ObjectId other_id \<noteq> Inr some_id \<and>
   project_field (snd (approve_project studio_db later some_id)) some_id ''approved_at'' = Some (VDate later) \<and>
   project_field (snd (approve_project studio_db later other_id)) some_id ''approved_at'' = None \<and>
   project_field (snd (upload_draft studio_db noon some_id ''https://cdn/draft1.png'')) some_id ''approved_at'' = None"
proof -
  have o: "ObjectId other_id \<noteq> Inr some_id"
    by (simp add: ObjectId_def is_valid_def is_hex_def other_id_def some_id_def lower_ascii_def)
  have f: "find_one (project studio_db) some_id \<noteq> None"
    by (simp add: studio_find)
  have z: "project_field studio_db some_id ''approved_at'' = None"
    by (simp add: project_field_def studio_find field_def project_doc_def)
  have a: "project_field (snd (approve_project studio_db later some_id)) some_id ''approved_at'' = Some (VDate later)"
    using approved_at_set_by_approve [where s = studio_db and p = some_id and j = some_id
        and now = later] ObjectId_some_id f
    by blast
  have b: "project_field (snd (approve_project studio_db later other_id)) some_id ''approved_at'' = None"
    using approved_at_set_by_approve [where s = studio_db and p = other_id and j = some_id
        and now = later] o z
    by simp
  have c: "project_field (snd (upload_draft studio_db noon some_id ''https://cdn/draft1.png'')) some_id ''approved_at'' = None"
    using approved_at_set_by_approve [where s = studio_db and p = some_id and j = some_id
        and now = noon and url = "''https://cdn/draft1.png''"] z
    by simp
  show ?thesis
    using ObjectId_some_id f o a b c by simp
qed

subsection \<open>Uploading drafts\<close>

lemma upload_update:
  "map_of es ''drafts'' = Some (VList ds) \<Longrightarrow>
   apply_update \<lparr>u_push = [(''drafts'', v)], u_set = [(''updated_at'', VDate now)]\<rparr> es =
     Inr (AList.update ''updated_at'' (VDate now) (AList.update ''drafts'' (VList (ds @ [v])) es))"
  by (simp add: apply_update_def)

lemma upload_draft_existing:
  assumes "ObjectId p = Inr i" and "project_field s i ''drafts'' = Some (VList ds)"
  shows "\<exists>r s'. upload_draft s now p url = (Inr r, s') \<and>
           project_field s' i ''drafts'' = Some (VList (ds @ [draft_entry url now])) \<and>
           project_field s' i ''updated_at'' = Some (VDate now)"
proof -
  from assms(2) obtain d where d: "find_one (project s) i = Some d"
      "map_of (entries d) ''drafts'' = Some (VList ds)"
    by (auto simp: project_field_def field_def split: option.splits)
  from update_project_done [OF assms(1) d(1) upload_update [OF d(2), of "draft_entry url now" now]]
  show ?thesis
    by (auto simp: upload_draft_def project_field_def field_def update_conv')
qed

lemma upload_all_appends:
  assumes "ObjectId p = Inr i"
  shows "project_field s i ''drafts'' = Some (VList ds) \<Longrightarrow>
         \<exists>s'. upload_all s p us = Some s' \<and>
           project_field s' i ''drafts'' =
             Some (VList (ds @ map (\<lambda>u. draft_entry (snd u) (fst u)) us))"
proof (induction us arbitrary: s ds)
  case Nil
  then show ?case by simp
next
  case (Cons u us)
  obtain now url where u: "u = (now, url)" by (cases u)
  from upload_draft_existing [OF assms Cons.prems, of now url] obtain r s1 where
    s1: "upload_draft s now p url = (Inr r, s1)"
      "project_field s1 i ''drafts'' = Some (VList (ds @ [draft_entry url now]))"
    by blast
  from Cons.IH [OF s1(2)] obtain s' where
    "upload_all s1 p us = Some s'"
    "project_field s' i ''drafts'' =
       Some (VList ((ds @ [draft_entry url now]) @ map (\<lambda>u. draft_entry (snd u) (fst u)) us))"
    by blast
  then show ?case
    using s1(1) u by simp
qed

lemma find_one_inserted:
  "find_one coll i = None \<Longrightarrow>
   find_one (insert_one coll i es) i = Some \<lparr>oid = Some i, entries = es\<rparr>"
  by (induction coll) (auto simp: find_one_def insert_one_def split: if_splits)

lemma create_project_drafts:
  assumes "ObjectId new_id = Inr new_id" and "find_one (project s) new_id = None"
  shows "project_field (snd (create_project s new_id payload)) new_id ''drafts'' = Some (VList [])"
  using assms
  by (simp add: create_project_def create_document_def find_one_inserted project_field_def
      field_def project_doc_def)

text \<open>
  C8. On a project whose drafts are \<open>ds\<close>, any \<open>N\<close> upload-draft calls in a row all
  succeed, and the drafts are then \<open>ds\<close> followed by the \<open>N\<close> new entries in call
  order, so \<open>N\<close> more than before; a project just created has none, hence \<open>N\<close>
  afterwards. Each call appends one entry, keeps the ones there in place, and sets
  \<^verbatim>\<open>updated_at\<close> to its own clock reading; add-comment and approve leave the drafts
  as they are.
\<close>

theorem upload_draft_appends:
  "(ObjectId p = Inr i \<and> project_field s i ''drafts'' = Some (VList ds) \<longrightarrow>
      (\<exists>s'. upload_all s p us = Some s' \<and>
         project_field s' i ''drafts'' =
           Some (VList (ds @ map (\<lambda>u. draft_entry (snd u) (fst u)) us)) \<and>
         length (ds @ map (\<lambda>u. draft_entry (snd u) (fst u)) us) = length ds + length us)) \<and>
   (ObjectId p = Inr i \<and> project_field s i ''drafts'' = Some (VList ds) \<longrightarrow>
      (\<exists>r s'. upload_draft s now p url = (Inr r, s') \<and>
         project_field s' i ''drafts'' = Some (VList (ds @ [draft_entry url now])) \<and>
         project_field s' i ''updated_at'' = Some (VDate now))) \<and>
   (ObjectId p = Inr p \<and> find_one (project s) p = None \<longrightarrow>
      (\<exists>s'. upload_all (snd (create_project s p payload)) p us = Some s' \<and>
         project_field s' p ''drafts'' = Some (VList (map (\<lambda>u. draft_entry (snd u) (fst u)) us)) \<and>
         length (map (\<lambda>u. draft_entry (snd u) (fst u)) us) = length us)) \<and>
   project_field (snd (add_comment s now1 now2 p remark')) j ''drafts'' = project_field s j ''drafts'' \<and>
   project_field (snd (approve_project s now p)) j ''drafts'' = project_field s j ''drafts''"
proof -
  have a: "ObjectId p = Inr i \<and> project_field s i ''drafts'' = Some (VList ds) \<longrightarrow>
      (\<exists>s'. upload_all s p us = Some s' \<and>
         project_field s' i ''drafts'' =
           Some (VList (ds @ map (\<lambda>u. draft_entry (snd u) (fst u)) us)) \<and>
         length (ds @ map (\<lambda>u. draft_entry (snd u) (fst u)) us) = length ds + length us)"
    using upload_all_appends [of p i s ds us] by auto
  have b: "ObjectId p = Inr i \<and> project_field s i ''drafts'' = Some (VList ds) \<longrightarrow>
      (\<exists>r s'. upload_draft s now p url = (Inr r, s') \<and>
         project_field s' i ''drafts'' = Some (VList (ds @ [draft_entry url now])) \<and>
         project_field s' i ''updated_at'' = Some (VDate now))"
    using upload_draft_existing [of p i s ds now url] by blast
  have c: "ObjectId p = Inr p \<and> find_one (project s) p = None \<longrightarrow>
      (\<exists>s'. upload_all (snd (create_project s p payload)) p us = Some s' \<and>
         project_field s' p ''drafts'' = Some (VList (map (\<lambda>u. draft_entry (snd u) (fst u)) us)) \<and>
         length (map (\<lambda>u. draft_entry (snd u) (fst u)) us) = length us)"
  proof
    assume h: "ObjectId p = Inr p \<and> find_one (project s) p = None"
    then have "project_field (snd (create_project s p payload)) p ''drafts'' = Some (VList [])"
      by (simp add: create_project_drafts)
    from upload_all_appends [OF _ this, of p us] h
    show "\<exists>s'. upload_all (snd (create_project s p payload)) p us = Some s' \<and>
         project_field s' p ''drafts'' = Some (VList (map (\<lambda>u. draft_entry (snd u) (fst u)) us)) \<and>
         length (map (\<lambda>u. draft_entry (snd u) (fst u)) us) = length us"
      by auto
  qed
  show ?thesis
    using a b c by (simp add: add_comment_keeps approve_project_keeps)
qed

theorem upload_draft_appends_witness:
  "ObjectId some_id = Inr some_id \<and> find_one (project empty_db) some_id = None \<and>
   (\<exists>s'. upload_all studio_db some_id [(noon, ''https://cdn/draft1.png''), (later, ''https://cdn/draft2.png'')] = Some s' \<and>
      project_field s' some_id ''drafts'' =
        Some (VList [draft_entry ''https://cdn/draft1.png'' noon, draft_entry ''https://cdn/draft2.png'' later])) \<and>
   project_field studio_db some_id ''drafts'' = Some (VList []) \<and>
   (\<exists>r s'. upload_draft studio_db noon some_id ''https://cdn/draft1.png'' = (Inr r, s') \<and>
      project_field s' some_id ''drafts'' = Some (VList [draft_entry ''https://cdn/draft1.png'' noon]) \<and>
      project_field s' some_id ''updated_at'' = Some (VDate noon))"
proof -
  have f: "find_one (project empty_db) some_id = None"
    by (simp add: find_one_def empty_db_def)
  have d: "project_field studio_db some_id ''drafts'' = Some (VList [])"
    by (simp add: project_field_def studio_find field_def project_doc_def)
  have a: "\<exists>s'. upload_all studio_db some_id [(noon, ''https://cdn/draft1.png''), (later, ''https://cdn/draft2.png'')] = Some s' \<and>
      project_field s' some_id ''drafts'' =
        Some (VList [draft_entry ''https://cdn/draft1.png'' noon, draft_entry ''https://cdn/draft2.png'' later])"
    using upload_draft_appends [where p = some_id and i = some_id and s = empty_db and payload = brief
        and us = "[(noon, ''https://cdn/draft1.png''), (later, ''https://cdn/draft2.png'')]"]
      ObjectId_some_id f
    by (simp add: studio_db_def)
  have b: "\<exists>r s'. upload_draft studio_db noon some_id ''https://cdn/draft1.png'' = (Inr r, s') \<and>
      project_field s' some_id ''drafts'' = Some (VList [draft_entry ''https://cdn/draft1.png'' noon]) \<and>
      project_field s' some_id ''updated_at'' = Some (VDate noon)"
    using upload_draft_appends [where p = some_id and i = some_id and s = studio_db and ds = "[]"
        and now = noon and url = "''https://cdn/draft1.png''"]
      ObjectId_some_id d
    by simp
  show ?thesis
    using ObjectId_some_id f a d b by blast
qed

subsection \<open>Checkout\<close>

lemma checkout_result:
  assumes "ObjectId new_id = Inr new_id" and "find_one (order s) new_id = None"
  shows "checkout s new_id payload =
     (Inr (Some (serialize_doc \<lparr>oid = Some new_id, entries = order_doc payload\<rparr>)),
      s\<lparr>order := order s @ [\<lparr>oid = Some new_id, entries = order_doc payload\<rparr>]\<rparr>)"
  using assms find_one_inserted [OF assms(2), of "order_doc payload"]
  by (simp add: checkout_def create_document_def serialize_opt_def) (simp add: insert_one_def)

lemma order_doc_fields:
  "map_of (order_doc payload) ''status'' = Some (VStr ''paid'')"
  "map_of (order_doc payload) ''subtotal'' = Some (VFloat (subtotal payload))"
  "map_of (order_doc payload) ''download_links'' =
     Some (VList (map (\<lambda>i. VStr (download_link i)) (items payload)))"
  "map_of (order_doc payload) ''invoice_url'' = Some (VStr ''/invoices/mock.pdf'')"
  by (simp_all add: order_doc_def)

text \<open>
  C6. A checkout stores one order and answers with its serialisation: status
  \<^verbatim>\<open>paid\<close>, the subtotal of the request, one download link
  \<^verbatim>\<open>/downloads/{product_id}.zip\<close> per item in item order, and the invoice path
  \<^verbatim>\<open>/invoices/mock.pdf\<close>. The product collection is neither read nor written: the
  answer is the same whatever it holds, and it is the same afterwards. The identifier
  the store generates is well-formed and new to the order collection.
\<close>

theorem checkout_order:
  assumes "ObjectId new_id = Inr new_id" and "find_one (order s) new_id = None"
  shows "\<exists>r s'. checkout s new_id payload = (Inr (Some r), s') \<and>
     field r ''status'' = Some (VStr ''paid'') \<and>
     field r ''subtotal'' = Some (VFloat (subtotal payload)) \<and>
     field r ''download_links'' =
       Some (VList (map (\<lambda>i. VStr (''/downloads/'' @ product_id i @ ''.zip'')) (items payload))) \<and>
     field r ''invoice_url'' = Some (VStr ''/invoices/mock.pdf'') \<and>
     field r ''id'' = Some (VStr new_id) \<and>
     find_one (order s') new_id = Some \<lparr>oid = Some new_id, entries = order_doc payload\<rparr> \<and>
     product s' = product s \<and>
     fst (checkout (s\<lparr>product := ps\<rparr>) new_id payload) = Inr (Some r)"
proof -
  let ?d = "\<lparr>oid = Some new_id, entries = order_doc payload\<rparr>"
  have f: "field (serialize_doc ?d) ''status'' = Some (VStr ''paid'')"
    "field (serialize_doc ?d) ''subtotal'' = Some (VFloat (subtotal payload))"
    "field (serialize_doc ?d) ''download_links'' =
       Some (VList (map (\<lambda>i. VStr (''/downloads/'' @ product_id i @ ''.zip'')) (items payload)))"
    "field (serialize_doc ?d) ''invoice_url'' = Some (VStr ''/invoices/mock.pdf'')"
    by (simp_all add: field_serialize_doc)
      (simp_all add: field_def order_doc_fields iso_value_def download_link_def)
  have i: "field (serialize_doc ?d) ''id'' = Some (VStr new_id)"
    by (simp add: serialize_doc_def field_def map_convert_update update_conv' str_id_def)
  have o: "find_one (order s @ [?d]) new_id = Some ?d"
    using find_one_inserted [OF assms(2), of "order_doc payload"] by (simp add: insert_one_def)
  have p: "checkout (s\<lparr>product := ps\<rparr>) new_id payload =
     (Inr (Some (serialize_doc ?d)), s\<lparr>product := ps, order := order s @ [?d]\<rparr>)"
    using checkout_result [of new_id "s\<lparr>product := ps\<rparr>" payload] assms by simp
  show ?thesis
    using checkout_result [OF assms, of payload] f i o p by simp
qed

theorem checkout_order_witness:
  "ObjectId some_id = Inr some_id \<and> find_one (order empty_db) some_id = None \<and>
   (\<exists>r s'. checkout empty_db some_id cart = (Inr (Some r), s') \<and>
      field r ''status'' = Some (VStr ''paid'') \<and>
      field r ''subtotal'' = Some (VFloat 10) \<and>
      field r ''download_links'' = Some (VList [VStr ''/downloads/p1.zip'']))"
proof -
  have f: "find_one (order empty_db) some_id = None"
    by (simp add: find_one_def empty_db_def)
  show ?thesis
    using checkout_order [OF ObjectId_some_id f, of cart "[]"] ObjectId_some_id f
    by (auto simp: cart_def)
qed

subsection \<open>Empty filter parameters\<close>



















end
